theory Spec2Isabelle
  imports Main "HOL-Library.Word" "HOL-Library.Sublist"
begin

section \<open>JavaScript strings\<close>

text \<open>
  A JavaScript string is a sequence of UTF-16 code units. Page texts, dialog messages and
  the arguments of the page objects are such strings; the ASCII literals of the source are
  embedded with \<open>ascii\<close>.
\<close>

type_synonym code_unit = "16 word"

type_synonym jsstring = "code_unit list"

definition ascii :: "string \<Rightarrow> jsstring" where
  "ascii s = map of_char s"

text \<open>
  \<open>String.prototype.trim\<close> strips the ECMAScript WhiteSpace and LineTerminator code
  points from both ends: TAB, LF, VT, FF, CR, SP, NBSP, the Unicode space separators,
  LS, PS and the byte order mark. All of them are single code units.
\<close>

definition isWhiteSpace :: "code_unit \<Rightarrow> bool" where
  "isWhiteSpace c = (c \<in> set [0x9, 0xA, 0xB, 0xC, 0xD, 0x20, 0xA0, 0x1680,
      0x2000, 0x2001, 0x2002, 0x2003, 0x2004, 0x2005, 0x2006, 0x2007, 0x2008, 0x2009, 0x200A,
      0x2028, 0x2029, 0x202F, 0x205F, 0x3000, 0xFEFF])"

definition trim :: "jsstring \<Rightarrow> jsstring" where
  "trim s = rev (dropWhile isWhiteSpace (rev (dropWhile isWhiteSpace s)))"

text \<open>\<open>s.includes(sub)\<close>: \<open>sub\<close> occurs in \<open>s\<close> at some position.\<close>

fun str_includes :: "jsstring \<Rightarrow> jsstring \<Rightarrow> bool" where
  "str_includes [] sub = (sub = [])"
| "str_includes (c # cs) sub = (prefix sub (c # cs) \<or> str_includes cs sub)"

text \<open>
  \<open>Array.prototype.findIndex\<close>: the index of the first element that satisfies the
  predicate, \<open>-1\<close> when there is none.
\<close>

fun findIndex_from :: "('a \<Rightarrow> bool) \<Rightarrow> 'a list \<Rightarrow> int \<Rightarrow> int" where
  "findIndex_from P [] k = - 1"
| "findIndex_from P (x # xs) k = (if P x then k else findIndex_from P xs (k + 1))"

definition findIndex :: "('a \<Rightarrow> bool) \<Rightarrow> 'a list \<Rightarrow> int" where
  "findIndex P xs = findIndex_from P xs 0"


section \<open>The driver handle\<close>

text \<open>
  The page objects see the remote shop only through the Playwright \<open>Page\<close> they are
  constructed with. A page is modelled by what each selector resolves to: the list of
  matching elements in document order, each with its text content, its input value and
  whether it is visible. The snapshot is the settled page: what the fixed
  \<open>waitForTimeout\<close> delays of the source wait for.

  The reaction of the remote shop to a click is a parameter of every action: given the
  page, the selector and the index of the clicked element it yields the native dialog
  that fires (if any) and the page afterwards.
\<close>

record element =
  el_text :: jsstring
  el_value :: jsstring
  el_visible :: bool

type_synonym selector = string

type_synonym dom = "selector \<Rightarrow> element list"

type_synonym remote_app = "dom \<Rightarrow> selector \<Rightarrow> nat \<Rightarrow> jsstring option \<times> dom"

datatype error =
    TimeoutError
  | StrictModeViolation
  | ExpectFailed
  | Error jsstring

text \<open>\<open>await m; k\<close>: a rejected promise is rethrown, a fulfilled one continues.\<close>

definition await :: "error + 'a \<Rightarrow> ('a \<Rightarrow> error + 'b) \<Rightarrow> error + 'b" where
  "await m k = (case m of Inl e \<Rightarrow> Inl e | Inr x \<Rightarrow> k x)"

text \<open>\<open>try { m } catch { h }\<close>\<close>

definition try_catch :: "error + 'a \<Rightarrow> (error \<Rightarrow> error + 'a) \<Rightarrow> error + 'a" where
  "try_catch m h = (case m of Inl e \<Rightarrow> h e | Inr x \<Rightarrow> Inr x)"

text \<open>\<open>page.locator(sel).count()\<close> never waits and never throws.\<close>

definition locator_count :: "dom \<Rightarrow> selector \<Rightarrow> nat" where
  "locator_count p sel = length (p sel)"

text \<open>
  An operation on \<open>locator(sel).nth(i)\<close> (\<open>first()\<close> is \<open>nth(0)\<close>) waits for the
  element and times out (\<open>actionTimeout\<close>) when the locator has no such match.
\<close>

definition locator_nth :: "dom \<Rightarrow> selector \<Rightarrow> nat \<Rightarrow> error + element" where
  "locator_nth p sel i = (if i < length (p sel) then Inr (p sel ! i) else Inl TimeoutError)"

text \<open>
  An operation on \<open>locator(sel)\<close> itself is strict: it times out without a match and
  is refused when the selector resolves to more than one element.
\<close>

definition locator :: "dom \<Rightarrow> selector \<Rightarrow> error + element" where
  "locator p sel =
     (case p sel of
        [] \<Rightarrow> Inl TimeoutError
      | [e] \<Rightarrow> Inr e
      | _ \<Rightarrow> Inl StrictModeViolation)"

text \<open>
  \<open>textContent()\<close> of an element is never \<open>null\<close>, so the \<open>|| ''\<close> of the source
  leaves it as it is.
\<close>

definition nth_textContent :: "dom \<Rightarrow> selector \<Rightarrow> nat \<Rightarrow> error + jsstring" where
  "nth_textContent p sel i = await (locator_nth p sel i) (\<lambda>e. Inr (el_text e))"

definition inputValue :: "dom \<Rightarrow> selector \<Rightarrow> error + jsstring" where
  "inputValue p sel = await (locator p sel) (\<lambda>e. Inr (el_value e))"

text \<open>
  \<open>page.waitForSelector(sel, {timeout})\<close> waits until the first match is visible (the
  default state) and throws a timeout error otherwise.
\<close>

definition waitForSelector :: "dom \<Rightarrow> selector \<Rightarrow> error + unit" where
  "waitForSelector p sel =
     (case p sel of
        [] \<Rightarrow> Inl TimeoutError
      | e # _ \<Rightarrow> if el_visible e then Inr () else Inl TimeoutError)"

text \<open>\<open>expect(page.locator(sel)).toBeVisible()\<close> and \<open>.toBeHidden()\<close>\<close>

definition expect_toBeVisible :: "dom \<Rightarrow> selector \<Rightarrow> error + unit" where
  "expect_toBeVisible p sel =
     (case p sel of
        [] \<Rightarrow> Inl ExpectFailed
      | [e] \<Rightarrow> if el_visible e then Inr () else Inl ExpectFailed
      | _ \<Rightarrow> Inl StrictModeViolation)"

definition expect_toBeHidden :: "dom \<Rightarrow> selector \<Rightarrow> error + unit" where
  "expect_toBeHidden p sel =
     (case p sel of
        [] \<Rightarrow> Inr ()
      | [e] \<Rightarrow> if el_visible e then Inl ExpectFailed else Inr ()
      | _ \<Rightarrow> Inl StrictModeViolation)"

text \<open>\<open>page.locator(sel).fill(v)\<close> needs the one visible element and sets its value.\<close>

definition fill :: "dom \<Rightarrow> selector \<Rightarrow> jsstring \<Rightarrow> error + dom" where
  "fill p sel v =
     await (locator p sel)
       (\<lambda>e. if el_visible e then Inr (p(sel := [e\<lparr>el_value := v\<rparr>])) else Inl TimeoutError)"

text \<open>
  A click needs a visible target; the remote shop then answers. \<open>click\<close> is
  \<open>locator(sel).click()\<close>, \<open>nth_click\<close> is \<open>locator(sel).nth(i).click()\<close>.
\<close>

definition click :: "remote_app \<Rightarrow> dom \<Rightarrow> selector \<Rightarrow> error + jsstring option \<times> dom" where
  "click app p sel =
     await (locator p sel)
       (\<lambda>e. if el_visible e then Inr (app p sel 0) else Inl TimeoutError)"

definition nth_click ::
  "remote_app \<Rightarrow> dom \<Rightarrow> selector \<Rightarrow> nat \<Rightarrow> error + jsstring option \<times> dom" where
  "nth_click app p sel i =
     await (locator_nth p sel i)
       (\<lambda>e. if el_visible e then Inr (app p sel i) else Inl TimeoutError)"

text \<open>
  \<open>let alertMessage = ''; page.once('dialog', d => alertMessage = d.message())\<close>: the
  variable keeps the empty string when no dialog fires during the wait.
\<close>

definition dialog_message :: "jsstring option \<Rightarrow> jsstring" where
  "dialog_message d = (case d of None \<Rightarrow> [] | Some m \<Rightarrow> m)"


section \<open>ContactPage\<close>

definition emailInput :: selector where
  "emailInput = ''#recipient-email''"

definition nameInput :: selector where
  "nameInput = ''#recipient-name''"

definition messageInput :: selector where
  "messageInput = ''#message-text''"

record validation =
  isValid :: bool
  errors :: "jsstring list"

text \<open>\<open>errors.push(msg); isValid = false\<close>\<close>

definition push_error :: "validation \<Rightarrow> string \<Rightarrow> validation" where
  "push_error v msg = \<lparr>isValid = False, errors = errors v @ [ascii msg]\<rparr>"

definition check_rules :: "jsstring \<Rightarrow> jsstring \<Rightarrow> jsstring \<Rightarrow> validation" where
  "check_rules email nm message =
     (let v0 = \<lparr>isValid = True, errors = []\<rparr>;
          v1 = (if email = [] then push_error v0 ''Email is required'' else v0);
          v2 = (if nm = [] then push_error v1 ''Name is required'' else v1);
          v3 = (if message = [] then push_error v2 ''Message is required'' else v2);
          v4 = (if email \<noteq> [] \<and> \<not> str_includes email (ascii ''@'')
                then push_error v3 ''Invalid email format'' else v3)
      in v4)"

definition verifyFormValidation :: "dom \<Rightarrow> error + validation" where
  "verifyFormValidation p =
     await (inputValue p emailInput) (\<lambda>email.
     await (inputValue p nameInput) (\<lambda>nm.
     await (inputValue p messageInput) (\<lambda>message.
       Inr (check_rules email nm message))))"

text \<open>The contact form with the given contents of its three inputs.\<close>

definition input_with :: "jsstring \<Rightarrow> element" where
  "input_with v = \<lparr>el_text = [], el_value = v, el_visible = True\<rparr>"

definition contact_form :: "jsstring \<Rightarrow> jsstring \<Rightarrow> jsstring \<Rightarrow> dom" where
  "contact_form email nm message =
     (\<lambda>_. [])(emailInput := [input_with email], nameInput := [input_with nm],
              messageInput := [input_with message])"

text \<open>
  The rules as the specification lists them, each with the condition that violates it:
  the three fields are required, and a non-empty email needs an \<open>@\<close>.
\<close>

definition at_sign :: code_unit where
  "at_sign = of_char (CHR ''@'')"

definition violated_rules :: "jsstring \<Rightarrow> jsstring \<Rightarrow> jsstring \<Rightarrow> jsstring list" where
  "violated_rules email nm message =
     map (ascii \<circ> snd) (filter fst
       [(email = [], ''Email is required''),
        (nm = [], ''Name is required''),
        (message = [], ''Message is required''),
        (email \<noteq> [] \<and> at_sign \<notin> set email, ''Invalid email format'')])"


section \<open>Session probes and logout\<close>

subsection \<open>HomePage\<close>

definition home_loginLink :: selector where
  "home_loginLink = ''a#login2''"

definition logoutLink :: selector where
  "logoutLink = ''a#logout2''"

definition isUserLoggedIn :: "dom \<Rightarrow> error + bool" where
  "isUserLoggedIn p =
     try_catch (await (waitForSelector p logoutLink) (\<lambda>_. Inr True)) (\<lambda>_. Inr False)"

definition home_logout :: "remote_app \<Rightarrow> dom \<Rightarrow> (error + unit) \<times> dom" where
  "home_logout app p =
     (case isUserLoggedIn p of
        Inl e \<Rightarrow> (Inl e, p)
      | Inr loggedIn \<Rightarrow>
          if loggedIn then
            (case click app p logoutLink of
               Inl e \<Rightarrow> (Inl e, p)
             | Inr (_, p') \<Rightarrow> (waitForSelector p' home_loginLink, p'))
          else (Inr (), p))"

subsection \<open>AuthenticationPage\<close>

definition signUpModal :: selector where
  "signUpModal = ''#signInModal''"

definition signUpUsernameInput :: selector where
  "signUpUsernameInput = ''#sign-username''"

definition signUpPasswordInput :: selector where
  "signUpPasswordInput = ''#sign-password''"

definition signUpButton :: selector where
  \<open>signUpButton = ''button[onclick="register()"]''\<close>

definition welcomeMessage :: selector where
  "welcomeMessage = ''#nameofuser''"

definition logoutButton :: selector where
  "logoutButton = ''#logout2''"

definition loginLink :: selector where
  "loginLink = ''#login2''"

definition waitForSignUpModal :: "dom \<Rightarrow> error + unit" where
  "waitForSignUpModal p =
     await (expect_toBeVisible p signUpModal) (\<lambda>_. expect_toBeVisible p signUpUsernameInput)"

text \<open>
  \<open>signUp\<close>: wait for the modal, fill both fields, register the one-shot dialog
  observer, click, wait two seconds, classify \<open>alertMessage\<close>; after a success the
  modal is expected to be hidden.
\<close>

definition signUp :: "remote_app \<Rightarrow> dom \<Rightarrow> jsstring \<Rightarrow> jsstring \<Rightarrow> (error + bool) \<times> dom" where
  "signUp app p username password =
     (case waitForSignUpModal p of
        Inl e \<Rightarrow> (Inl e, p)
      | Inr _ \<Rightarrow>
     (case fill p signUpUsernameInput username of
        Inl e \<Rightarrow> (Inl e, p)
      | Inr p1 \<Rightarrow>
     (case fill p1 signUpPasswordInput password of
        Inl e \<Rightarrow> (Inl e, p1)
      | Inr p2 \<Rightarrow>
     (case click app p2 signUpButton of
        Inl e \<Rightarrow> (Inl e, p2)
      | Inr (d, p3) \<Rightarrow>
          (let alertMessage = dialog_message d;
               isSuccess = str_includes alertMessage (ascii ''Sign up successful'')
           in if isSuccess then
                (case expect_toBeHidden p3 signUpModal of
                   Inl e \<Rightarrow> (Inl e, p3)
                 | Inr _ \<Rightarrow> (Inr isSuccess, p3))
              else (Inr isSuccess, p3))))))"

text \<open>\<open>attemptSignUpWithExistingUser\<close>: the same steps; \<open>alertMessage\<close> is returned.\<close>

definition attemptSignUpWithExistingUser ::
  "remote_app \<Rightarrow> dom \<Rightarrow> jsstring \<Rightarrow> jsstring \<Rightarrow> (error + jsstring) \<times> dom" where
  "attemptSignUpWithExistingUser app p username password =
     (case waitForSignUpModal p of
        Inl e \<Rightarrow> (Inl e, p)
      | Inr _ \<Rightarrow>
     (case fill p signUpUsernameInput username of
        Inl e \<Rightarrow> (Inl e, p)
      | Inr p1 \<Rightarrow>
     (case fill p1 signUpPasswordInput password of
        Inl e \<Rightarrow> (Inl e, p1)
      | Inr p2 \<Rightarrow>
     (case click app p2 signUpButton of
        Inl e \<Rightarrow> (Inl e, p2)
      | Inr (d, p3) \<Rightarrow> (Inr (dialog_message d), p3)))))"

definition auth_logout :: "remote_app \<Rightarrow> dom \<Rightarrow> (error + unit) \<times> dom" where
  "auth_logout app p =
     (case expect_toBeVisible p logoutButton of
        Inl e \<Rightarrow> (Inl e, p)
      | Inr _ \<Rightarrow>
     (case click app p logoutButton of
        Inl e \<Rightarrow> (Inl e, p)
      | Inr (_, p') \<Rightarrow>
          (await (expect_toBeHidden p' welcomeMessage) (\<lambda>_. expect_toBeVisible p' loginLink),
           p')))"

definition isLoggedIn :: "dom \<Rightarrow> error + bool" where
  "isLoggedIn p =
     try_catch (await (expect_toBeVisible p welcomeMessage) (\<lambda>_. Inr True)) (\<lambda>_. Inr False)"


section \<open>CartPage\<close>

definition cartItems :: selector where
  "cartItems = ''#tbodyid tr''"

definition cartItemNames :: selector where
  "cartItemNames = ''#tbodyid tr td:nth-child(2)''"

definition cartItemPrices :: selector where
  "cartItemPrices = ''#tbodyid tr td:nth-child(3)''"

definition deleteButtons :: selector where
  "deleteButtons = ''#tbodyid tr td:nth-child(4) a''"

definition tbodyid :: selector where
  "tbodyid = ''#tbodyid''"

definition page_wrapper :: selector where
  "page_wrapper = ''#page-wrapper''"

record CartItem =
  name :: jsstring
  price :: jsstring

text \<open>
  The \<open>for (let i = 0; i < count; i++)\<close> loop of \<open>getCartItems\<close>: the \<open>i\<close>-th match of
  the name locator and the \<open>i\<close>-th match of the price locator are read and pushed,
  trimmed. A read beyond the matches of its locator times out.
\<close>

function getCartItems_loop :: "dom \<Rightarrow> nat \<Rightarrow> nat \<Rightarrow> CartItem list \<Rightarrow> error + CartItem list" where
  "getCartItems_loop p i count items =
     (if i < count then
        (case nth_textContent p cartItemNames i of
           Inl e \<Rightarrow> Inl e
         | Inr nm \<Rightarrow>
        (case nth_textContent p cartItemPrices i of
           Inl e \<Rightarrow> Inl e
         | Inr pr \<Rightarrow>
             getCartItems_loop p (i + 1) count (items @ [\<lparr>name = trim nm, price = trim pr\<rparr>])))
      else Inr items)"
  by pat_completeness auto
termination
  by (relation "measure (\<lambda>(p, i, count, items). count - i)") auto

declare getCartItems_loop.simps [simp del]

definition getCartItems :: "dom \<Rightarrow> error + CartItem list" where
  "getCartItems p =
     await (waitForSelector p tbodyid)
       (\<lambda>_. getCartItems_loop p 0 (locator_count p cartItems) [])"

definition getCartItemCount :: "dom \<Rightarrow> error + nat" where
  "getCartItemCount p =
     try_catch
       (await (waitForSelector p page_wrapper) (\<lambda>_.
          let items = locator_count p cartItems in
          if items = 0 then Inr 0
          else await (nth_textContent p cartItems 0) (\<lambda>firstItemText.
            Inr (if items = 1 \<and> (firstItemText = [] \<or> trim firstItemText = [])
                 then 0 else items))))
       (\<lambda>_. Inr 0)"

definition not_found_message :: "jsstring \<Rightarrow> jsstring" where
  \<open>not_found_message itemName = ascii ''Item "'' @ itemName @ ascii ''" not found in cart''\<close>

definition removeItemByName :: "remote_app \<Rightarrow> dom \<Rightarrow> jsstring \<Rightarrow> (error + unit) \<times> dom" where
  "removeItemByName app p itemName =
     (case getCartItems p of
        Inl e \<Rightarrow> (Inl e, p)
      | Inr items \<Rightarrow>
          (let itemIndex = findIndex (\<lambda>item. name item = itemName) items in
           if itemIndex \<ge> 0 then
             (case nth_click app p deleteButtons (nat itemIndex) of
                Inl e \<Rightarrow> (Inl e, p)
              | Inr (_, p') \<Rightarrow> (Inr (), p'))
           else (Inl (Error (not_found_message itemName)), p)))"

text \<open>
  The \<open>while (itemCount > 0)\<close> loop of \<open>removeAllItems\<close>. Nothing in the source bounds
  the number of rounds, so the loop is a partial function: \<open>None\<close> is a run that never
  returns.
\<close>

partial_function (option) removeAllItems_loop ::
  "remote_app \<Rightarrow> dom \<Rightarrow> nat \<Rightarrow> ((error + unit) \<times> dom) option" where
  "removeAllItems_loop app p itemCount =
     (if itemCount > 0 then
        (case nth_click app p deleteButtons 0 of
           Inl e \<Rightarrow> Some (Inl e, p)
         | Inr (_, p') \<Rightarrow>
        (case getCartItemCount p' of
           Inl e \<Rightarrow> Some (Inl e, p')
         | Inr n \<Rightarrow> removeAllItems_loop app p' n))
      else Some (Inr (), p))"

definition removeAllItems :: "remote_app \<Rightarrow> dom \<Rightarrow> ((error + unit) \<times> dom) option" where
  "removeAllItems app p =
     (case getCartItemCount p of
        Inl e \<Rightarrow> Some (Inl e, p)
      | Inr itemCount \<Rightarrow> removeAllItems_loop app p itemCount)"

text \<open>\<open>items.some(item => item.name.includes(itemName))\<close>\<close>

definition verifyItemInCart :: "dom \<Rightarrow> jsstring \<Rightarrow> error + bool" where
  "verifyItemInCart p itemName =
     await (getCartItems p)
       (\<lambda>items. Inr (list_ex (\<lambda>item. str_includes (name item) itemName) items))"

subsection \<open>The rendered cart\<close>

text \<open>
  On the cart page of the shop every row of the table has its name cell, its price cell
  and its visible Delete link, so that the four locators are aligned by row.
\<close>

definition cart_rendered :: "dom \<Rightarrow> bool" where
  "cart_rendered p \<longleftrightarrow>
     waitForSelector p tbodyid = Inr () \<and> waitForSelector p page_wrapper = Inr ()
     \<and> length (p cartItemNames) = length (p cartItems)
     \<and> length (p cartItemPrices) = length (p cartItems)
     \<and> length (p deleteButtons) = length (p cartItems)
     \<and> list_all el_visible (p deleteButtons)"

text \<open>The lines of a rendered cart, row by row.\<close>

definition cart_lines :: "dom \<Rightarrow> CartItem list" where
  "cart_lines p =
     map (\<lambda>i. \<lparr>name = trim (el_text (p cartItemNames ! i)),
                price = trim (el_text (p cartItemPrices ! i))\<rparr>)
       [0..<length (p cartItems)]"

text \<open>The page after the shop has taken the \<open>i\<close>-th row out of the table.\<close>

definition drop_nth :: "nat \<Rightarrow> 'a list \<Rightarrow> 'a list" where
  "drop_nth i xs = take i xs @ drop (Suc i) xs"

definition remove_row :: "nat \<Rightarrow> dom \<Rightarrow> dom" where
  "remove_row i p =
     p(cartItems := drop_nth i (p cartItems),
       cartItemNames := drop_nth i (p cartItemNames),
       cartItemPrices := drop_nth i (p cartItemPrices),
       deleteButtons := drop_nth i (p deleteButtons))"


section \<open>Example pages and shops\<close>

definition shown :: "jsstring \<Rightarrow> element" where
  "shown t = \<lparr>el_text = t, el_value = [], el_visible = True\<rparr>"

definition hidden :: "jsstring \<Rightarrow> element" where
  "hidden t = \<lparr>el_text = t, el_value = [], el_visible = False\<rparr>"

text \<open>A shop that does not react to a click at all.\<close>

definition unresponsive_app :: remote_app where
  "unresponsive_app p sel i = (None, p)"

text \<open>A shop that answers every click with the dialog for a taken username.\<close>

definition rejecting_app :: remote_app where
  "rejecting_app p sel i = (Some (ascii ''This user already exist.''), p)"

text \<open>
  The home page as an anonymous visitor sees it: the logout link and the welcome text are
  in the document but hidden, the login link is shown.
\<close>

definition logged_out_page :: dom where
  "logged_out_page =
     (\<lambda>_. [])(logoutLink := [hidden (ascii ''Log out'')],
              logoutButton := [hidden (ascii ''Log out'')],
              welcomeMessage := [hidden []],
              home_loginLink := [shown (ascii ''Log in'')],
              loginLink := [shown (ascii ''Log in'')])"

text \<open>The home page with the sign-up modal open.\<close>

definition signUp_page :: dom where
  "signUp_page =
     (\<lambda>_. [])(signUpModal := [shown (ascii ''Sign up'')],
              signUpUsernameInput := [shown []],
              signUpPasswordInput := [shown []],
              signUpButton := [shown (ascii ''Sign up'')])"


text \<open>A shop that takes the row of the clicked Delete link out of the cart.\<close>

definition deleting_app :: remote_app where
  "deleting_app p sel i = (None, if sel = deleteButtons then remove_row i p else p)"

text \<open>The cart page showing the given lines, each a product name and a price.\<close>

definition cart_page :: "(string \<times> string) list \<Rightarrow> dom" where
  "cart_page lines =
     (\<lambda>_. [])(tbodyid := [shown []],
              page_wrapper := [shown []],
              cartItems := map (\<lambda>(n, pr). shown (ascii (n @ pr @ ''Delete''))) lines,
              cartItemNames := map (\<lambda>(n, pr). shown (ascii n)) lines,
              cartItemPrices := map (\<lambda>(n, pr). shown (ascii pr)) lines,
              deleteButtons := map (\<lambda>_. shown (ascii ''Delete'')) lines)"


text \<open>The cart page with the single, blank placeholder row.\<close>

definition placeholder_cart :: dom where
  "placeholder_cart =
     (\<lambda>_. [])(tbodyid := [shown []], page_wrapper := [shown []],
              cartItems := [shown (ascii ''  '')])"


section \<open>Facts about the string operations\<close>

lemma str_includes_sublist: "str_includes s sub = sublist sub s"
  by (induction s) (simp_all add: sublist_Cons_right)

lemma str_includes_iff: "str_includes s sub \<longleftrightarrow> (\<exists>ps ss. s = ps @ sub @ ss)"
  by (simp add: str_includes_sublist sublist_def)

lemma str_includes_single: "str_includes s [c] \<longleftrightarrow> c \<in> set s"
  by (induction s) auto

lemma await_Inr [simp]: "await (Inr x) k = k x"
  by (simp add: await_def)

lemma await_Inl [simp]: "await (Inl e) k = Inl e"
  by (simp add: await_def)


section \<open>ContactPage: local validation\<close>

lemma check_rules_valid:
  "isValid (check_rules email nm message) \<longleftrightarrow>
     email \<noteq> [] \<and> nm \<noteq> [] \<and> message \<noteq> [] \<and> at_sign \<in> set email"
  by (simp add: check_rules_def push_error_def Let_def ascii_def at_sign_def str_includes_single)

lemma check_rules_errors:
  "errors (check_rules email nm message) = violated_rules email nm message"
  by (simp add: check_rules_def violated_rules_def push_error_def Let_def ascii_def at_sign_def
      str_includes_single)

lemma inputValue_contact_form:
  "inputValue (contact_form email nm message) emailInput = Inr email"
  "inputValue (contact_form email nm message) nameInput = Inr nm"
  "inputValue (contact_form email nm message) messageInput = Inr message"
  by (simp_all add: inputValue_def locator_def contact_form_def input_with_def emailInput_def
      nameInput_def messageInput_def)

text \<open>
  C7. Whenever the three inputs of the form can be read, \<open>verifyFormValidation\<close> returns
  a result whose \<open>isValid\<close> holds exactly when email, name and message are all
  non-empty and the email contains an \<open>@\<close>, and whose \<open>errors\<close> are the messages of
  all violated rules, one per rule and in rule order (the format rule only counts on a
  non-empty email); in particular the result is valid exactly when no error is listed.
\<close>

theorem verifyFormValidation_enumerates:
  assumes "inputValue p emailInput = Inr email"
    and "inputValue p nameInput = Inr nm"
    and "inputValue p messageInput = Inr message"
  shows "\<exists>v. verifyFormValidation p = Inr v
           \<and> (isValid v \<longleftrightarrow> email \<noteq> [] \<and> nm \<noteq> [] \<and> message \<noteq> [] \<and> at_sign \<in> set email)
           \<and> errors v = violated_rules email nm message
           \<and> (isValid v \<longleftrightarrow> errors v = [])"
proof -
  have run: "verifyFormValidation p = Inr (check_rules email nm message)"
    using assms by (simp add: verifyFormValidation_def)
  have none: "violated_rules email nm message = [] \<longleftrightarrow>
      email \<noteq> [] \<and> nm \<noteq> [] \<and> message \<noteq> [] \<and> at_sign \<in> set email"
    by (auto simp: violated_rules_def)
  show ?thesis
    using run none by (simp add: check_rules_valid check_rules_errors)
qed

text \<open>
  With all three fields empty the result is invalid and lists exactly the three
  "required" messages.
\<close>

theorem verifyFormValidation_enumerates_witness:
  "\<exists>v. verifyFormValidation (contact_form [] [] []) = Inr v
      \<and> \<not> isValid v
      \<and> errors v = [ascii ''Email is required'', ascii ''Name is required'',
                     ascii ''Message is required'']"
  using verifyFormValidation_enumerates [OF inputValue_contact_form, of "[]" "[]" "[]"]
  by (auto simp add: violated_rules_def)


section \<open>Session probes\<close>

lemma waitForSelector_iff:
  "waitForSelector p sel = Inr () \<longleftrightarrow> (\<exists>e es. p sel = e # es \<and> el_visible e)"
  by (simp add: waitForSelector_def split: list.splits)

lemma expect_toBeVisible_iff:
  "expect_toBeVisible p sel = Inr () \<longleftrightarrow> (\<exists>e. p sel = [e] \<and> el_visible e)"
  by (simp add: expect_toBeVisible_def split: list.splits)

lemma try_catch_bool:
  "try_catch (await m (\<lambda>_. Inr True)) (\<lambda>_. Inr False) = Inr (m = Inr ())"
  by (cases m) (simp_all add: try_catch_def)

text \<open>
  C8. Both probes return a boolean on every page and never an error: \<open>isUserLoggedIn\<close>
  is true exactly when its bounded wait for the logout link succeeds (the first match is
  visible), \<open>isLoggedIn\<close> exactly when the expectation on the welcome text succeeds (it
  is the one, visible match); a failed or timed-out wait is answered by \<open>false\<close>.
\<close>

theorem probes_return_boolean:
  "isUserLoggedIn p = Inr (waitForSelector p logoutLink = Inr ())
   \<and> isLoggedIn p = Inr (expect_toBeVisible p welcomeMessage = Inr ())
   \<and> (waitForSelector p logoutLink = Inr () \<longleftrightarrow> (\<exists>e es. p logoutLink = e # es \<and> el_visible e))
   \<and> (expect_toBeVisible p welcomeMessage = Inr () \<longleftrightarrow> (\<exists>e. p welcomeMessage = [e] \<and> el_visible e))"
  by (simp add: isUserLoggedIn_def isLoggedIn_def try_catch_bool waitForSelector_iff
      expect_toBeVisible_iff)

text \<open>On the logged-out page the wait times out and both probes answer \<open>false\<close>.\<close>

theorem probes_return_boolean_witness:
  "waitForSelector logged_out_page logoutLink = Inl TimeoutError
   \<and> isUserLoggedIn logged_out_page = Inr False
   \<and> isLoggedIn logged_out_page = Inr False"
  using probes_return_boolean [of logged_out_page]
  by (simp add: waitForSelector_def expect_toBeVisible_def logged_out_page_def hidden_def
      shown_def logoutLink_def logoutButton_def welcomeMessage_def home_loginLink_def
      loginLink_def)


section \<open>Logout\<close>

lemma no_visible_probe:
  "\<forall>e\<in>set (p sel). \<not> el_visible e \<Longrightarrow> waitForSelector p sel = Inl TimeoutError"
  by (simp add: waitForSelector_def split: list.splits)

lemma no_visible_expect:
  "\<forall>e\<in>set (p sel). \<not> el_visible e \<Longrightarrow>
     expect_toBeVisible p sel = Inl (if length (p sel) \<le> 1 then ExpectFailed else StrictModeViolation)"
  by (simp add: expect_toBeVisible_def split: list.splits)

lemma logged_out_page_simps:
  "logged_out_page logoutLink = [hidden (ascii ''Log out'')]"
  "logged_out_page logoutButton = [hidden (ascii ''Log out'')]"
  by (simp_all add: logged_out_page_def logoutLink_def logoutButton_def welcomeMessage_def
      home_loginLink_def loginLink_def)

text \<open>
  C5, as the claim states it, fails for \<open>HomePage.logout\<close>: on the logged-out page the
  probe answers \<open>false\<close> and the method returns normally, leaving the page as it was.
\<close>

theorem home_logout_silent_counterexample:
  "isUserLoggedIn logged_out_page = Inr False
   \<and> home_logout unresponsive_app logged_out_page = (Inr (), logged_out_page)"
  by (simp add: home_logout_def isUserLoggedIn_def try_catch_def waitForSelector_def
      logged_out_page_simps hidden_def)

text \<open>
  C5, amended. While no logout button is visible, \<open>AuthenticationPage.logout\<close> throws
  the error of its failed visibility expectation, whatever the shop would do on a click,
  and leaves the page untouched: nothing is clicked. \<open>HomePage.logout\<close> is guarded by
  \<open>isUserLoggedIn\<close>: while no logout link is visible it returns normally without
  touching the page.
\<close>

theorem logout_when_logged_out:
  "((\<forall>e\<in>set (p logoutButton). \<not> el_visible e) \<longrightarrow>
      auth_logout app p =
        (Inl (if length (p logoutButton) \<le> 1 then ExpectFailed else StrictModeViolation), p))
   \<and> ((\<forall>e\<in>set (p logoutLink). \<not> el_visible e) \<longrightarrow> home_logout app p = (Inr (), p))"
  by (simp add: auth_logout_def home_logout_def isUserLoggedIn_def try_catch_def
      no_visible_probe no_visible_expect)

text \<open>
  On the logged-out page \<open>AuthenticationPage.logout\<close> fails on its first expectation and
  \<open>HomePage.logout\<close> returns without a click.
\<close>

theorem logout_when_logged_out_witness:
  "auth_logout rejecting_app logged_out_page = (Inl ExpectFailed, logged_out_page)
   \<and> home_logout rejecting_app logged_out_page = (Inr (), logged_out_page)"
  using logout_when_logged_out [of logged_out_page rejecting_app]
  by (simp add: logged_out_page_simps hidden_def)


section \<open>Registration\<close>

text \<open>
  C4. Let the sign-up form be ready, so that the modal is awaited and both fields are
  filled, and let the click on the sign-up button produce the dialog \<open>d\<close>; the dialog
  text is \<open>dialog_message d\<close> (empty when no dialog fired). Then
  \<open>attemptSignUpWithExistingUser\<close> returns that text as it is; \<open>signUp\<close> never returns
  a boolean other than "the text contains \<open>Sign up successful\<close>"; on a text without
  that substring it returns \<open>false\<close> and throws nothing; on a text with it, it returns
  \<open>true\<close> once the modal is hidden.
\<close>

theorem signUp_classifies_dialog:
  assumes "waitForSignUpModal p = Inr ()"
    and "fill p signUpUsernameInput username = Inr p1"
    and "fill p1 signUpPasswordInput password = Inr p2"
    and "click app p2 signUpButton = Inr (d, q)"
  shows "attemptSignUpWithExistingUser app p username password = (Inr (dialog_message d), q)
    \<and> (\<forall>b q'. signUp app p username password = (Inr b, q') \<longrightarrow>
          (b \<longleftrightarrow> (\<exists>ps ss. dialog_message d = ps @ ascii ''Sign up successful'' @ ss)))
    \<and> ((\<nexists>ps ss. dialog_message d = ps @ ascii ''Sign up successful'' @ ss) \<longrightarrow>
          signUp app p username password = (Inr False, q))
    \<and> ((\<exists>ps ss. dialog_message d = ps @ ascii ''Sign up successful'' @ ss)
          \<and> expect_toBeHidden q signUpModal = Inr () \<longrightarrow>
          signUp app p username password = (Inr True, q))"
  using assms
  by (auto simp add: attemptSignUpWithExistingUser_def signUp_def Let_def
      str_includes_iff [symmetric] split: sum.splits)

lemma rejection_text_not_success:
  "\<not> str_includes (ascii ''This user already exist.'') (ascii ''Sign up successful'')"
  by (simp add: ascii_def)

text \<open>
  On the open sign-up modal, a shop that answers with the duplicate-user dialog makes
  \<open>signUp\<close> return \<open>false\<close> and \<open>attemptSignUpWithExistingUser\<close> return the text.
\<close>

theorem signUp_classifies_dialog_witness:
  "fst (signUp rejecting_app signUp_page (ascii ''sathish_demo_user'') (ascii ''Test@123''))
     = Inr False
   \<and> fst (attemptSignUpWithExistingUser rejecting_app signUp_page
            (ascii ''sathish_demo_user'') (ascii ''Test@123''))
     = Inr (ascii ''This user already exist.'')"
proof -
  let ?u = "ascii ''sathish_demo_user''" and ?pw = "ascii ''Test@123''"
  let ?p1 = "signUp_page(signUpUsernameInput := [(shown [])\<lparr>el_value := ?u\<rparr>])"
  let ?p2 = "?p1(signUpPasswordInput := [(shown [])\<lparr>el_value := ?pw\<rparr>])"
  have modal: "waitForSignUpModal signUp_page = Inr ()"
    by (simp add: waitForSignUpModal_def expect_toBeVisible_def signUp_page_def shown_def
        signUpModal_def signUpUsernameInput_def signUpPasswordInput_def signUpButton_def)
  have user: "fill signUp_page signUpUsernameInput ?u = Inr ?p1"
    by (simp add: fill_def locator_def signUp_page_def shown_def
        signUpModal_def signUpUsernameInput_def signUpPasswordInput_def signUpButton_def)
  have pass: "fill ?p1 signUpPasswordInput ?pw = Inr ?p2"
    by (simp add: fill_def locator_def signUp_page_def shown_def
        signUpModal_def signUpUsernameInput_def signUpPasswordInput_def signUpButton_def)
  have submit: "click rejecting_app ?p2 signUpButton
      = Inr (Some (ascii ''This user already exist.''), ?p2)"
    by (simp add: click_def locator_def rejecting_app_def signUp_page_def shown_def
        signUpModal_def signUpUsernameInput_def signUpPasswordInput_def signUpButton_def)
  show ?thesis
    using signUp_classifies_dialog [OF modal user pass submit] rejection_text_not_success
    by (simp add: str_includes_iff dialog_message_def)
qed


section \<open>CartPage: reading the cart\<close>

lemma trim_empty_iff: "trim s = [] \<longleftrightarrow> (\<forall>c\<in>set s. isWhiteSpace c)"
proof -
  have "trim s = [] \<longleftrightarrow> (\<forall>c\<in>set (dropWhile isWhiteSpace s). isWhiteSpace c)"
    by (simp add: trim_def dropWhile_eq_Nil_conv)
  also have "\<dots> \<longleftrightarrow> dropWhile isWhiteSpace s = []"
    by (metis hd_dropWhile list.set_sel(1) empty_iff list.set(1))
  also have "\<dots> \<longleftrightarrow> (\<forall>c\<in>set s. isWhiteSpace c)"
    by (simp add: dropWhile_eq_Nil_conv)
  finally show ?thesis .
qed

lemma getCartItems_loop_cong:
  "p cartItemNames = q cartItemNames \<Longrightarrow> p cartItemPrices = q cartItemPrices \<Longrightarrow>
     getCartItems_loop p i n items = getCartItems_loop q i n items"
proof (induction p i n items rule: getCartItems_loop.induct)
  case (1 p i n items)
  show ?case
    using 1
    by (subst (1 2) getCartItems_loop.simps)
      (auto simp add: nth_textContent_def locator_nth_def split: sum.splits)
qed

lemma getCartItems_loop_aligned:
  "n \<le> length (p cartItemNames) \<Longrightarrow> n \<le> length (p cartItemPrices) \<Longrightarrow> i \<le> n \<Longrightarrow>
     getCartItems_loop p i n items =
       Inr (items @ map (\<lambda>j. \<lparr>name = trim (el_text (p cartItemNames ! j)),
                price = trim (el_text (p cartItemPrices ! j))\<rparr>) [i..<n])"
proof (induction p i n items rule: getCartItems_loop.induct)
  case (1 p i n items)
  show ?case
  proof (cases "i < n")
    case True
    then show ?thesis
      using 1 by (subst getCartItems_loop.simps)
        (simp add: nth_textContent_def locator_nth_def upt_conv_Cons)
  next
    case False
    then show ?thesis
      using 1 by (subst getCartItems_loop.simps) simp
  qed
qed

lemma getCartItems_rendered: "cart_rendered p \<Longrightarrow> getCartItems p = Inr (cart_lines p)"
  by (simp add: cart_rendered_def getCartItems_def locator_count_def cart_lines_def
      getCartItems_loop_aligned)

lemma getCartItems_loop_Inr_bounds:
  "getCartItems_loop p i n items = Inr xs \<Longrightarrow> i < n \<Longrightarrow>
     n \<le> length (p cartItemNames) \<and> n \<le> length (p cartItemPrices)"
proof (induction p i n items arbitrary: xs rule: getCartItems_loop.induct)
  case (1 p i n items)
  from "1.prems" obtain nm pr where
    nm: "nth_textContent p cartItemNames i = Inr nm" and
    pr: "nth_textContent p cartItemPrices i = Inr pr" and
    rec: "getCartItems_loop p (i + 1) n (items @ [\<lparr>name = trim nm, price = trim pr\<rparr>]) = Inr xs"
    by (subst (asm) getCartItems_loop.simps) (auto split: sum.splits)
  have here: "i < length (p cartItemNames) \<and> i < length (p cartItemPrices)"
    using nm pr by (auto simp: nth_textContent_def locator_nth_def split: if_splits)
  show ?case
  proof (cases "i + 1 < n")
    case True
    with "1.IH" [OF "1.prems"(2) nm pr rec] show ?thesis .
  next
    case False
    with "1.prems"(2) here show ?thesis by simp
  qed
qed

lemma getCartItems_Inr:
  assumes "getCartItems p = Inr xs"
  shows "xs = cart_lines p" and "waitForSelector p tbodyid = Inr ()"
    and "length (p cartItems) \<le> length (p cartItemNames)"
    and "length (p cartItems) \<le> length (p cartItemPrices)"
proof -
  show w: "waitForSelector p tbodyid = Inr ()"
    using assms by (cases "waitForSelector p tbodyid") (simp_all add: getCartItems_def)
  then have run: "getCartItems_loop p 0 (length (p cartItems)) [] = Inr xs"
    using assms by (simp add: getCartItems_def locator_count_def)
  show b1: "length (p cartItems) \<le> length (p cartItemNames)"
    using getCartItems_loop_Inr_bounds [OF run] by (cases "p cartItems") simp_all
  show b2: "length (p cartItems) \<le> length (p cartItemPrices)"
    using getCartItems_loop_Inr_bounds [OF run] by (cases "p cartItems") simp_all
  show "xs = cart_lines p"
    using run getCartItems_loop_aligned [OF b1 b2, of 0 "[]"] by (simp add: cart_lines_def)
qed

lemma getCartItems_frame:
  assumes "q tbodyid = p tbodyid" and "q cartItems = p cartItems"
    and "q cartItemNames = p cartItemNames" and "q cartItemPrices = p cartItemPrices"
  shows "getCartItems q = getCartItems p"
  using assms getCartItems_loop_cong [of q p]
  by (simp add: getCartItems_def waitForSelector_def locator_count_def)

lemma getCartItemCount_on_cart_page:
  assumes "waitForSelector p page_wrapper = Inr ()"
  shows "getCartItemCount p =
    Inr (if length (p cartItems) = 1 \<and> (\<forall>c\<in>set (el_text (p cartItems ! 0)). isWhiteSpace c)
         then 0 else length (p cartItems))"
proof -
  have blank: "t = [] \<or> trim t = [] \<longleftrightarrow> (\<forall>c\<in>set t. isWhiteSpace c)" for t
    using trim_empty_iff [of t] by auto
  show ?thesis
    using assms
    by (simp add: getCartItemCount_def try_catch_def locator_count_def nth_textContent_def
        locator_nth_def Let_def blank)
qed

lemma getCartItemCount_elsewhere:
  "waitForSelector p page_wrapper \<noteq> Inr () \<Longrightarrow> getCartItemCount p = Inr 0"
  by (cases "waitForSelector p page_wrapper") (simp_all add: getCartItemCount_def try_catch_def)

lemma getCartItemCount_total: "\<exists>n. getCartItemCount p = Inr n \<and> n \<le> length (p cartItems)"
  using getCartItemCount_on_cart_page [of p] getCartItemCount_elsewhere [of p]
  by (cases "waitForSelector p page_wrapper = Inr ()") auto

lemma cart_page_simps:
  "cart_page ls tbodyid = [shown []]"
  "cart_page ls page_wrapper = [shown []]"
  "cart_page ls cartItems = map (\<lambda>(n, pr). shown (ascii (n @ pr @ ''Delete''))) ls"
  "cart_page ls cartItemNames = map (\<lambda>(n, pr). shown (ascii n)) ls"
  "cart_page ls cartItemPrices = map (\<lambda>(n, pr). shown (ascii pr)) ls"
  "cart_page ls deleteButtons = map (\<lambda>_. shown (ascii ''Delete'')) ls"
  by (simp_all add: cart_page_def tbodyid_def page_wrapper_def cartItems_def cartItemNames_def
      cartItemPrices_def deleteButtons_def)

lemma cart_page_rendered: "cart_rendered (cart_page ls)"
  by (simp add: cart_rendered_def cart_page_simps waitForSelector_def shown_def list_all_iff)

lemma cart_lines_cart_page:
  "cart_lines (cart_page ls) = map (\<lambda>(n, pr). \<lparr>name = trim (ascii n), price = trim (ascii pr)\<rparr>) ls"
  by (rule nth_equalityI) (simp_all add: cart_lines_def cart_page_simps shown_def split_beta)

lemma getCartItems_cart_page:
  "getCartItems (cart_page ls) = Inr (map (\<lambda>(n, pr). \<lparr>name = trim (ascii n), price = trim (ascii pr)\<rparr>) ls)"
  by (simp add: getCartItems_rendered cart_page_rendered cart_lines_cart_page)

lemma trim_examples:
  "trim (ascii ''Samsung galaxy s6'') = ascii ''Samsung galaxy s6''"
  "trim (ascii ''360'') = ascii ''360''"
  "trim (ascii ''Sony vaio i5'') = ascii ''Sony vaio i5''"
  "trim (ascii ''790'') = ascii ''790''"
  "trim (ascii ''Apple monitor 24'') = ascii ''Apple monitor 24''"
  "trim (ascii ''400'') = ascii ''400''"
  by (simp_all add: trim_def ascii_def isWhiteSpace_def)

text \<open>
  C2. On the cart page (the page wrapper is there) \<open>getCartItemCount\<close> returns zero
  when the table has exactly one row and that row's text is empty or consists of white
  space only, and the number of rows in every other case.
\<close>

theorem getCartItemCount_counts_rows:
  assumes "waitForSelector p page_wrapper = Inr ()"
  shows "(length (p cartItems) = 1 \<and> (\<forall>c\<in>set (el_text (p cartItems ! 0)). isWhiteSpace c)
            \<longrightarrow> getCartItemCount p = Inr 0)
    \<and> (\<not> (length (p cartItems) = 1 \<and> (\<forall>c\<in>set (el_text (p cartItems ! 0)). isWhiteSpace c))
            \<longrightarrow> getCartItemCount p = Inr (length (p cartItems)))"
  using getCartItemCount_on_cart_page [OF assms] by simp

lemma placeholder_cart_simps:
  "placeholder_cart page_wrapper = [shown []]"
  "placeholder_cart cartItems = [shown (ascii ''  '')]"
  by (simp_all add: placeholder_cart_def tbodyid_def page_wrapper_def cartItems_def)

text \<open>The placeholder row counts as no item; a cart of two products counts two.\<close>

theorem getCartItemCount_counts_rows_witness:
  "getCartItemCount placeholder_cart = Inr 0
   \<and> getCartItemCount (cart_page [(''Samsung galaxy s6'', ''360''), (''Sony vaio i5'', ''790'')]) = Inr 2"
proof -
  have w1: "waitForSelector placeholder_cart page_wrapper = Inr ()"
    by (simp add: waitForSelector_def placeholder_cart_simps shown_def)
  have w2: "waitForSelector (cart_page ls) page_wrapper = Inr ()" for ls
    by (simp add: waitForSelector_def cart_page_simps shown_def)
  show ?thesis
    using getCartItemCount_counts_rows [OF w1]
      getCartItemCount_counts_rows [OF w2, of "[(''Samsung galaxy s6'', ''360''), (''Sony vaio i5'', ''790'')]"]
    by (simp add: placeholder_cart_simps cart_page_simps shown_def ascii_def isWhiteSpace_def)
qed

text \<open>
  C9. \<open>getCartItems\<close> depends on nothing but what the table body and the row, name and
  price locators resolve to when it is called: a second call on a page \<open>q\<close> that shows
  the same cart as the page \<open>p\<close> of the first call (in particular on \<open>p\<close> itself) has
  the same outcome, and a returned sequence has one line per row, holding at every index
  the trimmed name and price read from that row.
\<close>

theorem getCartItems_rereads_rows:
  assumes "q tbodyid = p tbodyid" and "q cartItems = p cartItems"
    and "q cartItemNames = p cartItemNames" and "q cartItemPrices = p cartItemPrices"
  shows "getCartItems q = getCartItems p
    \<and> (\<forall>xs. getCartItems p = Inr xs \<longrightarrow>
          length xs = length (p cartItems)
          \<and> (\<forall>i<length xs. name (xs ! i) = trim (el_text (p cartItemNames ! i))
                \<and> price (xs ! i) = trim (el_text (p cartItemPrices ! i))))"
proof -
  have "xs = cart_lines p" if "getCartItems p = Inr xs" for xs
    using getCartItems_Inr(1) [OF that] .
  then show ?thesis
    using getCartItems_frame [OF assms] by (auto simp add: cart_lines_def)
qed

text \<open>A change elsewhere on the page leaves the lines of a one-product cart as they are.\<close>

theorem getCartItems_rereads_rows_witness:
  "getCartItems ((cart_page [(''Samsung galaxy s6'', ''360'')])(logoutLink := [shown (ascii ''Log out'')]))
     = getCartItems (cart_page [(''Samsung galaxy s6'', ''360'')])
   \<and> getCartItems (cart_page [(''Samsung galaxy s6'', ''360'')])
     = Inr [\<lparr>name = ascii ''Samsung galaxy s6'', price = ascii ''360''\<rparr>]"
proof -
  let ?p = "cart_page [(''Samsung galaxy s6'', ''360'')]"
  let ?q = "?p(logoutLink := [shown (ascii ''Log out'')])"
  have same: "?q tbodyid = ?p tbodyid" "?q cartItems = ?p cartItems"
    "?q cartItemNames = ?p cartItemNames" "?q cartItemPrices = ?p cartItemPrices"
    by (simp_all add: logoutLink_def tbodyid_def cartItems_def cartItemNames_def cartItemPrices_def)
  from getCartItems_rereads_rows [OF same] have "getCartItems ?q = getCartItems ?p"
    by (rule conjunct1)
  moreover have "getCartItems ?p = Inr [\<lparr>name = ascii ''Samsung galaxy s6'', price = ascii ''360''\<rparr>]"
    by (simp add: getCartItems_cart_page trim_examples)
  ultimately show ?thesis by simp
qed


section \<open>CartPage: removing one item\<close>

lemma findIndex_from_neg:
  "0 \<le> k \<Longrightarrow> findIndex_from P xs k < 0 \<longleftrightarrow> (\<forall>x\<in>set xs. \<not> P x)"
  by (induction xs arbitrary: k) auto

lemma findIndex_from_first:
  "0 \<le> k \<Longrightarrow> 0 \<le> findIndex_from P xs k \<Longrightarrow>
     k \<le> findIndex_from P xs k \<and> nat (findIndex_from P xs k - k) < length xs
     \<and> P (xs ! nat (findIndex_from P xs k - k))
     \<and> (\<forall>j < nat (findIndex_from P xs k - k). \<not> P (xs ! j))"
proof (induction xs arbitrary: k)
  case Nil
  then show ?case by simp
next
  case (Cons x xs)
  show ?case
  proof (cases "P x")
    case True
    then show ?thesis by simp
  next
    case False
    with Cons.prems have r: "0 \<le> findIndex_from P xs (k + 1)" by simp
    from Cons.IH [OF _ r] Cons.prems(1)
    have ih: "k + 1 \<le> findIndex_from P xs (k + 1)"
      "nat (findIndex_from P xs (k + 1) - (k + 1)) < length xs"
      "P (xs ! nat (findIndex_from P xs (k + 1) - (k + 1)))"
      "\<forall>j < nat (findIndex_from P xs (k + 1) - (k + 1)). \<not> P (xs ! j)"
      by auto
    have eq: "nat (findIndex_from P xs (k + 1) - k) = Suc (nat (findIndex_from P xs (k + 1) - (k + 1)))"
      using ih(1) by simp
    show ?thesis
      using False ih eq by (auto simp: nth_Cons split: nat.splits)
  qed
qed

lemma findIndex_neg: "findIndex P xs < 0 \<longleftrightarrow> (\<forall>x\<in>set xs. \<not> P x)"
  by (simp add: findIndex_def findIndex_from_neg)

lemma findIndex_first:
  assumes "0 \<le> findIndex P xs"
  shows "nat (findIndex P xs) < length xs" and "P (xs ! nat (findIndex P xs))"
    and "\<forall>j < nat (findIndex P xs). \<not> P (xs ! j)"
  using findIndex_from_first [of 0 P xs] assms by (simp_all add: findIndex_def)

lemma length_drop_nth: "i < length xs \<Longrightarrow> length (drop_nth i xs) = length xs - 1"
  by (simp add: drop_nth_def)

lemma set_drop_nth: "set (drop_nth i xs) \<subseteq> set xs"
  by (auto simp: drop_nth_def dest: in_set_takeD in_set_dropD)

lemma filter_drop_nth:
  "i < length xs \<Longrightarrow> P (xs ! i) \<Longrightarrow>
     length (filter P (drop_nth i xs)) = length (filter P xs) - 1"
proof -
  assume i: "i < length xs" and P: "P (xs ! i)"
  have "xs = take i xs @ xs ! i # drop (Suc i) xs"
    using i by (simp add: id_take_nth_drop)
  then have "filter P xs = filter P (take i xs) @ xs ! i # filter P (drop (Suc i) xs)"
    using P by (metis filter.simps(2) filter_append)
  then show ?thesis by (simp add: drop_nth_def)
qed

lemma remove_row_simps:
  "remove_row i p cartItems = drop_nth i (p cartItems)"
  "remove_row i p cartItemNames = drop_nth i (p cartItemNames)"
  "remove_row i p cartItemPrices = drop_nth i (p cartItemPrices)"
  "remove_row i p deleteButtons = drop_nth i (p deleteButtons)"
  "remove_row i p tbodyid = p tbodyid"
  "remove_row i p page_wrapper = p page_wrapper"
  by (simp_all add: remove_row_def tbodyid_def page_wrapper_def cartItems_def cartItemNames_def
      cartItemPrices_def deleteButtons_def)

lemma cart_rendered_remove_row:
  "cart_rendered p \<Longrightarrow> i < length (p cartItems) \<Longrightarrow> cart_rendered (remove_row i p)"
  using set_drop_nth [of i "p deleteButtons"]
  by (auto simp add: cart_rendered_def remove_row_simps waitForSelector_def length_drop_nth
      list_all_iff)

lemma nth_drop_nth: "j < length xs - 1 \<Longrightarrow> drop_nth i xs ! j = (if j < i then xs ! j else xs ! Suc j)"
  by (auto simp add: drop_nth_def nth_append min_def)

lemma cart_lines_remove_row:
  assumes "cart_rendered p" and "i < length (p cartItems)"
  shows "cart_lines (remove_row i p) = drop_nth i (cart_lines p)"
proof (rule nth_equalityI)
  show len: "length (cart_lines (remove_row i p)) = length (drop_nth i (cart_lines p))"
    using assms by (simp add: cart_lines_def remove_row_simps length_drop_nth)
  fix j assume "j < length (cart_lines (remove_row i p))"
  then have j: "j < length (p cartItems) - 1"
    using assms by (simp add: cart_lines_def remove_row_simps length_drop_nth)
  then have sj: "Suc j < length (p cartItems)" and j': "j < length (p cartItems)"
    by arith+
  show "cart_lines (remove_row i p) ! j = drop_nth i (cart_lines p) ! j"
    using j sj j' assms
    by (simp add: cart_lines_def remove_row_simps length_drop_nth nth_drop_nth cart_rendered_def)
qed

lemma nth_click_rendered:
  "cart_rendered p \<Longrightarrow> k < length (p cartItems) \<Longrightarrow>
     nth_click app p deleteButtons k = Inr (app p deleteButtons k)"
  by (simp add: cart_rendered_def nth_click_def locator_nth_def list_all_length)

lemma nth_click_error: "nth_click app p sel k = Inl e \<Longrightarrow> e = TimeoutError"
  by (auto simp add: nth_click_def locator_nth_def split: if_splits)

lemma removeItemByName_not_found:
  assumes "getCartItems p = Inr items" and "\<forall>it\<in>set items. name it \<noteq> n"
  shows "removeItemByName app p n = (Inl (Error (not_found_message n)), p)"
proof -
  have "findIndex (\<lambda>item. name item = n) items < 0"
    using assms(2) by (simp add: findIndex_neg)
  then show ?thesis
    using assms(1) by (simp add: removeItemByName_def Let_def)
qed

lemma removeItemByName_found:
  assumes "getCartItems p = Inr items" and "\<exists>it\<in>set items. name it = n"
  shows "\<exists>k<length items. name (items ! k) = n \<and> (\<forall>j<k. name (items ! j) \<noteq> n)
    \<and> removeItemByName app p n =
        (case nth_click app p deleteButtons k of
           Inl e \<Rightarrow> (Inl e, p)
         | Inr (_, p') \<Rightarrow> (Inr (), p'))"
proof -
  let ?k = "findIndex (\<lambda>item. name item = n) items"
  have pos: "0 \<le> ?k"
    using assms(2) findIndex_neg [of "\<lambda>item. name item = n" items] by fastforce
  have "removeItemByName app p n =
        (case nth_click app p deleteButtons (nat ?k) of
           Inl e \<Rightarrow> (Inl e, p)
         | Inr (_, p') \<Rightarrow> (Inr (), p'))"
    using assms(1) pos by (simp add: removeItemByName_def Let_def)
  then show ?thesis
    using findIndex_first [OF pos] by blast
qed

lemma removeItemByName_error_iff:
  assumes "getCartItems p = Inr items"
  shows "fst (removeItemByName app p n) = Inl (Error (not_found_message n))
     \<longleftrightarrow> (\<forall>it\<in>set items. name it \<noteq> n)"
proof (cases "\<forall>it\<in>set items. name it \<noteq> n")
  case True
  then show ?thesis
    using removeItemByName_not_found [OF assms True] by simp
next
  case False
  then have "\<exists>it\<in>set items. name it = n" by blast
  from removeItemByName_found [OF assms this, of app] obtain k where
    run: "removeItemByName app p n =
        (case nth_click app p deleteButtons k of
           Inl e \<Rightarrow> (Inl e, p)
         | Inr (_, p') \<Rightarrow> (Inr (), p'))"
    by blast
  have "fst (removeItemByName app p n) \<noteq> Inl (Error (not_found_message n))"
    using nth_click_error [of app p deleteButtons k]
    by (auto simp add: run split: sum.splits)
  with False show ?thesis by simp
qed

lemma getCartItemCount_remove_row:
  assumes "waitForSelector p page_wrapper = Inr ()" and "k < length (p cartItems)"
    and "\<forall>e\<in>set (p cartItems). trim (el_text e) \<noteq> []"
  shows "getCartItemCount p = Inr (length (p cartItems))"
    and "getCartItemCount (remove_row k p) = Inr (length (p cartItems) - 1)"
proof -
  have nonblank: "\<not> (\<forall>c\<in>set (el_text e). isWhiteSpace c)" if "e \<in> set (p cartItems)" for e
    using assms(3) that by (simp add: trim_empty_iff)
  have "p cartItems ! 0 \<in> set (p cartItems)"
    using assms(2) by (cases "p cartItems") simp_all
  then show "getCartItemCount p = Inr (length (p cartItems))"
    using getCartItemCount_on_cart_page [OF assms(1)] nonblank by auto
  have w: "waitForSelector (remove_row k p) page_wrapper = Inr ()"
    using assms(1) by (simp add: waitForSelector_def remove_row_simps)
  have "drop_nth k (p cartItems) ! 0 \<in> set (p cartItems)" if "length (drop_nth k (p cartItems)) = 1"
    using that set_drop_nth [of k "p cartItems"]
    by (metis nth_mem subsetD zero_less_one)
  then show "getCartItemCount (remove_row k p) = Inr (length (p cartItems) - 1)"
    using getCartItemCount_on_cart_page [OF w] nonblank assms(2)
    by (auto simp add: remove_row_simps length_drop_nth)
qed

text \<open>
  C6, amended. On a rendered cart \<open>getCartItems\<close> returns the lines of the rows, and
  \<open>removeItemByName\<close> throws its "not found" error exactly when no line has the given
  name; it then leaves the page as it is, whatever the shop would do on a click, so
  nothing was clicked. When some line has the name, the method clicks the Delete link of
  the first such row and returns after its fixed delay with the page the shop left, without
  looking at the row count. If the shop has removed that row, the table has one row less,
  the lines are the former ones without the removed one, the name occurs once less among
  them (so it is gone only if it occurred once), and \<open>getCartItemCount\<close> is one less
  provided no row of the cart was blank.
\<close>

theorem removeItemByName_first_match:
  assumes "cart_rendered p"
  shows "getCartItems p = Inr (cart_lines p)
    \<and> (fst (removeItemByName app p n) = Inl (Error (not_found_message n))
          \<longleftrightarrow> (\<forall>it\<in>set (cart_lines p). name it \<noteq> n))
    \<and> ((\<forall>it\<in>set (cart_lines p). name it \<noteq> n) \<longrightarrow>
          removeItemByName app p n = (Inl (Error (not_found_message n)), p))
    \<and> ((\<exists>it\<in>set (cart_lines p). name it = n) \<longrightarrow>
          (\<exists>k<length (p cartItems).
              name (cart_lines p ! k) = n \<and> (\<forall>j<k. name (cart_lines p ! j) \<noteq> n)
            \<and> removeItemByName app p n = (Inr (), snd (app p deleteButtons k))
            \<and> (snd (app p deleteButtons k) = remove_row k p \<longrightarrow>
                  getCartItems (remove_row k p) = Inr (drop_nth k (cart_lines p))
                \<and> length (remove_row k p cartItems) = length (p cartItems) - 1
                \<and> length (filter (\<lambda>it. name it = n) (drop_nth k (cart_lines p)))
                    = length (filter (\<lambda>it. name it = n) (cart_lines p)) - 1
                \<and> ((\<forall>e\<in>set (p cartItems). trim (el_text e) \<noteq> []) \<longrightarrow>
                      getCartItemCount p = Inr (length (p cartItems))
                    \<and> getCartItemCount (remove_row k p) = Inr (length (p cartItems) - 1)))))"
proof -
  have items: "getCartItems p = Inr (cart_lines p)"
    using assms by (rule getCartItems_rendered)
  have len: "length (cart_lines p) = length (p cartItems)"
    by (simp add: cart_lines_def)
  have wrapper: "waitForSelector p page_wrapper = Inr ()"
    using assms by (simp add: cart_rendered_def)
  have found: "\<exists>k<length (p cartItems).
              name (cart_lines p ! k) = n \<and> (\<forall>j<k. name (cart_lines p ! j) \<noteq> n)
            \<and> removeItemByName app p n = (Inr (), snd (app p deleteButtons k))
            \<and> (snd (app p deleteButtons k) = remove_row k p \<longrightarrow>
                  getCartItems (remove_row k p) = Inr (drop_nth k (cart_lines p))
                \<and> length (remove_row k p cartItems) = length (p cartItems) - 1
                \<and> length (filter (\<lambda>it. name it = n) (drop_nth k (cart_lines p)))
                    = length (filter (\<lambda>it. name it = n) (cart_lines p)) - 1
                \<and> ((\<forall>e\<in>set (p cartItems). trim (el_text e) \<noteq> []) \<longrightarrow>
                      getCartItemCount p = Inr (length (p cartItems))
                    \<and> getCartItemCount (remove_row k p) = Inr (length (p cartItems) - 1)))"
    if ex: "\<exists>it\<in>set (cart_lines p). name it = n"
  proof -
    from removeItemByName_found [OF items ex, of app] len obtain k where
      k: "k < length (p cartItems)" and hit: "name (cart_lines p ! k) = n"
      and first: "\<forall>j<k. name (cart_lines p ! j) \<noteq> n"
      and run: "removeItemByName app p n =
        (case nth_click app p deleteButtons k of
           Inl e \<Rightarrow> (Inl e, p)
         | Inr (_, p') \<Rightarrow> (Inr (), p'))"
      by auto
    have r: "removeItemByName app p n = (Inr (), snd (app p deleteButtons k))"
      using run nth_click_rendered [OF assms k, of app] by (simp add: split_beta)
    have a: "getCartItems (remove_row k p) = Inr (drop_nth k (cart_lines p))"
      using getCartItems_rendered [OF cart_rendered_remove_row [OF assms k]]
        cart_lines_remove_row [OF assms k] by simp
    have b: "length (remove_row k p cartItems) = length (p cartItems) - 1"
      using k by (simp add: remove_row_simps length_drop_nth)
    have c: "length (filter (\<lambda>it. name it = n) (drop_nth k (cart_lines p)))
                    = length (filter (\<lambda>it. name it = n) (cart_lines p)) - 1"
      using k hit len by (simp add: filter_drop_nth)
    have d: "getCartItemCount p = Inr (length (p cartItems))
                    \<and> getCartItemCount (remove_row k p) = Inr (length (p cartItems) - 1)"
      if "\<forall>e\<in>set (p cartItems). trim (el_text e) \<noteq> []"
      using getCartItemCount_remove_row [OF wrapper k that] by simp
    show ?thesis
      using k hit first r a b c d by blast
  qed
  show ?thesis
    using items removeItemByName_error_iff [OF items, of app n]
      removeItemByName_not_found [OF items, of n app] found
    by blast
qed

lemma nth_click_cart_page:
  "k < length ls \<Longrightarrow> nth_click app (cart_page ls) deleteButtons k = Inr (app (cart_page ls) deleteButtons k)"
  by (simp add: nth_click_rendered cart_page_rendered cart_page_simps)

lemma getCartItems_remove_row_cart_page:
  "k < length ls \<Longrightarrow> getCartItems (remove_row k (cart_page ls)) =
     Inr (drop_nth k (map (\<lambda>(n, pr). \<lparr>name = trim (ascii n), price = trim (ascii pr)\<rparr>) ls))"
  using getCartItems_rendered [OF cart_rendered_remove_row [OF cart_page_rendered, of k ls]]
    cart_lines_remove_row [OF cart_page_rendered, of k ls]
  by (simp add: cart_page_simps cart_lines_cart_page)

text \<open>
  C6, as the claim states it, fails. With the same product twice in the cart and a shop
  that removes the clicked row, the call succeeds and the name is still among the lines.
  With a shop that does not react, the call returns normally as well, although the cart
  still counts one item: the method does not wait for the row count to decrease.
\<close>

theorem removeItemByName_counterexample:
  "fst (removeItemByName deleting_app
          (cart_page [(''Apple monitor 24'', ''400''), (''Apple monitor 24'', ''400'')])
          (ascii ''Apple monitor 24'')) = Inr ()
   \<and> getCartItems (snd (removeItemByName deleting_app
          (cart_page [(''Apple monitor 24'', ''400''), (''Apple monitor 24'', ''400'')])
          (ascii ''Apple monitor 24'')))
       = Inr [\<lparr>name = ascii ''Apple monitor 24'', price = ascii ''400''\<rparr>]
   \<and> removeItemByName unresponsive_app (cart_page [(''Apple monitor 24'', ''400'')])
          (ascii ''Apple monitor 24'')
       = (Inr (), cart_page [(''Apple monitor 24'', ''400'')])
   \<and> getCartItemCount (cart_page [(''Apple monitor 24'', ''400'')]) = Inr 1"
proof -
  let ?two = "cart_page [(''Apple monitor 24'', ''400''), (''Apple monitor 24'', ''400'')]"
  let ?one = "cart_page [(''Apple monitor 24'', ''400'')]"
  have run2: "removeItemByName deleting_app ?two (ascii ''Apple monitor 24'')
      = (Inr (), remove_row 0 ?two)"
    by (simp add: removeItemByName_def getCartItems_cart_page trim_examples findIndex_def
        nth_click_cart_page deleting_app_def)
  have after: "getCartItems (remove_row 0 ?two)
      = Inr [\<lparr>name = ascii ''Apple monitor 24'', price = ascii ''400''\<rparr>]"
    by (simp add: getCartItems_remove_row_cart_page trim_examples drop_nth_def)
  have run1: "removeItemByName unresponsive_app ?one (ascii ''Apple monitor 24'')
      = (Inr (), ?one)"
    by (simp add: removeItemByName_def getCartItems_cart_page trim_examples findIndex_def
        nth_click_cart_page unresponsive_app_def)
  have w: "waitForSelector ?one page_wrapper = Inr ()"
    by (simp add: waitForSelector_def cart_page_simps shown_def)
  have count: "getCartItemCount ?one = Inr 1"
    using getCartItemCount_on_cart_page [OF w]
    by (simp add: cart_page_simps shown_def ascii_def isWhiteSpace_def)
  show ?thesis
    using run2 after run1 count by simp
qed

text \<open>
  A cart of two different products: removing the first succeeds, removing a product that
  is not there throws and leaves the page untouched.
\<close>

theorem removeItemByName_first_match_witness:
  "cart_rendered (cart_page [(''Apple monitor 24'', ''400''), (''Sony vaio i5'', ''790'')])
   \<and> fst (removeItemByName deleting_app
          (cart_page [(''Apple monitor 24'', ''400''), (''Sony vaio i5'', ''790'')])
          (ascii ''Apple monitor 24'')) = Inr ()
   \<and> removeItemByName deleting_app
          (cart_page [(''Apple monitor 24'', ''400''), (''Sony vaio i5'', ''790'')])
          (ascii ''Samsung galaxy s6'')
       = (Inl (Error (not_found_message (ascii ''Samsung galaxy s6''))),
          cart_page [(''Apple monitor 24'', ''400''), (''Sony vaio i5'', ''790'')])"
proof -
  let ?p = "cart_page [(''Apple monitor 24'', ''400''), (''Sony vaio i5'', ''790'')]"
  have r: "cart_rendered ?p"
    by (rule cart_page_rendered)
  have lines: "cart_lines ?p = [\<lparr>name = ascii ''Apple monitor 24'', price = ascii ''400''\<rparr>,
      \<lparr>name = ascii ''Sony vaio i5'', price = ascii ''790''\<rparr>]"
    by (simp add: cart_lines_cart_page trim_examples)
  have absent: "\<forall>it\<in>set (cart_lines ?p). name it \<noteq> ascii ''Samsung galaxy s6''"
    by (simp add: lines ascii_def)
  have present: "\<exists>it\<in>set (cart_lines ?p). name it = ascii ''Apple monitor 24''"
    by (simp add: lines)
  from removeItemByName_first_match [OF r, of deleting_app "ascii ''Apple monitor 24''"] present
  have "fst (removeItemByName deleting_app ?p (ascii ''Apple monitor 24'')) = Inr ()"
    by fastforce
  moreover
  from removeItemByName_first_match [OF r, of deleting_app "ascii ''Samsung galaxy s6''"] absent
  have "removeItemByName deleting_app ?p (ascii ''Samsung galaxy s6'')
       = (Inl (Error (not_found_message (ascii ''Samsung galaxy s6''))), ?p)"
    by blast
  ultimately show ?thesis
    using r by simp
qed


section \<open>CartPage: containment and equality of names\<close>

lemma ascii_inject_examples:
  "ascii ''Sony vaio i5'' \<noteq> ascii ''Sony''"
  "str_includes (ascii ''Sony vaio i5'') (ascii ''Sony'')"
  by (simp_all add: ascii_def)

text \<open>
  C10. Whenever the lines of the cart can be read, \<open>verifyItemInCart\<close> returns whether
  the query occurs as a substring in the name of some line, while \<open>removeItemByName\<close>
  throws "not found" exactly when no line's name equals the query.
\<close>

theorem verifyItemInCart_containment:
  assumes "getCartItems p = Inr items"
  shows "verifyItemInCart p s = Inr (\<exists>it\<in>set items. \<exists>ps ss. name it = ps @ s @ ss)
    \<and> (fst (removeItemByName app p s) = Inl (Error (not_found_message s))
          \<longleftrightarrow> (\<forall>it\<in>set items. name it \<noteq> s))"
  using assms removeItemByName_error_iff [OF assms, of app s]
  by (simp add: verifyItemInCart_def list_ex_iff str_includes_iff)

text \<open>
  The query \<open>Sony\<close> is reported as present in a cart that holds \<open>Sony vaio i5\<close>, and
  removing \<open>Sony\<close> from that cart throws "not found".
\<close>

theorem verifyItemInCart_containment_witness:
  "verifyItemInCart (cart_page [(''Sony vaio i5'', ''790'')]) (ascii ''Sony'') = Inr True
   \<and> fst (removeItemByName deleting_app (cart_page [(''Sony vaio i5'', ''790'')]) (ascii ''Sony''))
       = Inl (Error (not_found_message (ascii ''Sony'')))"
proof -
  have items: "getCartItems (cart_page [(''Sony vaio i5'', ''790'')])
      = Inr [\<lparr>name = ascii ''Sony vaio i5'', price = ascii ''790''\<rparr>]"
    by (simp add: getCartItems_cart_page trim_examples)
  have "\<exists>ps ss. ascii ''Sony vaio i5'' = ps @ ascii ''Sony'' @ ss"
    using ascii_inject_examples(2) by (simp add: str_includes_iff)
  then show ?thesis
    using verifyItemInCart_containment [OF items, of "ascii ''Sony''" deleting_app]
      ascii_inject_examples(1)
    by simp
qed


section \<open>CartPage: removing all items\<close>

lemma removeAllItems_loop_diverges:
  assumes click: "nth_click app p deleteButtons 0 = Inr (d, p)"
    and count: "getCartItemCount p = Inr (Suc m)"
  shows "removeAllItems_loop app p (Suc n) = None"
proof -
  have never: "\<not> (a = app \<and> q = p \<and> 0 < k)" if run: "removeAllItems_loop a q k = Some y" for a q k y
  proof (rule removeAllItems_loop.raw_induct
      [where P = "\<lambda>a q k y. \<not> (a = app \<and> q = p \<and> 0 < k)", OF _ run], goal_cases)
    case (1 loop a' q' k' y')
    show ?case
    proof
      assume "a' = app \<and> q' = p \<and> 0 < k'"
      with 1(2) click count have "loop app p (Suc m) = Some y'" by simp
      from 1(1) [OF this] show False by simp
    qed
  qed
  have "removeAllItems_loop app p (Suc n) \<noteq> Some y" for y
    using never [of app p "Suc n" y] by auto
  then show ?thesis by (cases "removeAllItems_loop app p (Suc n)") auto
qed

lemma removeAllItems_diverges:
  assumes "nth_click app p deleteButtons 0 = Inr (d, p)"
    and "getCartItemCount p = Inr (Suc m)"
  shows "removeAllItems app p = None"
  using assms by (simp add: removeAllItems_def removeAllItems_loop_diverges)

lemma removeAllItems_loop_terminates:
  assumes app: "\<forall>q. snd (app q deleteButtons 0) = remove_row 0 q"
  shows "length (p deleteButtons) = length (p cartItems) \<Longrightarrow> list_all el_visible (p deleteButtons)
    \<Longrightarrow> getCartItemCount p = Inr n
    \<Longrightarrow> \<exists>q. removeAllItems_loop app p n = Some (Inr (), q) \<and> getCartItemCount q = Inr 0"
proof (induction "length (p cartItems)" arbitrary: p n)
  case 0
  then have "n = 0"
    using getCartItemCount_total [of p] by simp
  with "0.prems" show ?case
    by (subst removeAllItems_loop.simps) simp
next
  case (Suc l)
  show ?case
  proof (cases "n = 0")
    case True
    with Suc.prems show ?thesis
      by (subst removeAllItems_loop.simps) simp
  next
    case False
    let ?q = "remove_row 0 p"
    have click: "nth_click app p deleteButtons 0 = Inr (app p deleteButtons 0)"
      using Suc.hyps(2) [symmetric] Suc.prems(1,2)
      by (simp add: nth_click_def locator_nth_def list_all_length)
    have q: "snd (app p deleteButtons 0) = ?q"
      using app by simp
    have len: "l = length (?q cartItems)"
      using Suc.hyps(2) [symmetric] by (simp add: remove_row_simps length_drop_nth)
    have al: "length (?q deleteButtons) = length (?q cartItems)"
      using Suc.hyps(2) [symmetric] Suc.prems(1) by (simp add: remove_row_simps length_drop_nth)
    have vis: "list_all el_visible (?q deleteButtons)"
      using Suc.prems(2) set_drop_nth [of 0 "p deleteButtons"]
      by (auto simp add: remove_row_simps list_all_iff)
    obtain n' where n': "getCartItemCount ?q = Inr n'"
      using getCartItemCount_total [of ?q] by blast
    from Suc.hyps(1) [OF len al vis n'] obtain r where
      r: "removeAllItems_loop app ?q n' = Some (Inr (), r)" "getCartItemCount r = Inr 0"
      by blast
    have "removeAllItems_loop app p n = removeAllItems_loop app ?q n'"
      using False click q n' by (subst removeAllItems_loop.simps) (simp add: split_beta)
    with r show ?thesis by simp
  qed
qed

text \<open>
  C1, amended. \<open>removeAllItems\<close> has no bound on its rounds. When the shop answers every
  click on the first Delete link by removing the first row, and every row has its visible
  Delete link, the method returns normally on a page where \<open>getCartItemCount\<close> is zero.
  When the click on the first Delete link leaves a page with a positive item count as it
  is, the method never returns.
\<close>

theorem removeAllItems_unbounded:
  "((\<forall>q. snd (app q deleteButtons 0) = remove_row 0 q)
      \<and> length (p deleteButtons) = length (p cartItems) \<and> list_all el_visible (p deleteButtons)
     \<longrightarrow> (\<exists>q. removeAllItems app p = Some (Inr (), q) \<and> getCartItemCount q = Inr 0))
   \<and> ((\<exists>d m. nth_click app p deleteButtons 0 = Inr (d, p) \<and> getCartItemCount p = Inr (Suc m))
     \<longrightarrow> removeAllItems app p = None)"
proof -
  obtain n where n: "getCartItemCount p = Inr n"
    using getCartItemCount_total [of p] by blast
  have "\<exists>q. removeAllItems app p = Some (Inr (), q) \<and> getCartItemCount q = Inr 0"
    if "\<forall>q. snd (app q deleteButtons 0) = remove_row 0 q"
      and "length (p deleteButtons) = length (p cartItems)"
      and "list_all el_visible (p deleteButtons)"
    using removeAllItems_loop_terminates [of app p n] that n by (simp add: removeAllItems_def)
  then show ?thesis
    using removeAllItems_diverges [of app p] by blast
qed

lemma one_line_cart_facts:
  "nth_click unresponsive_app (cart_page [(''Samsung galaxy s6'', ''360'')]) deleteButtons 0
     = Inr (None, cart_page [(''Samsung galaxy s6'', ''360'')])"
  "nth_click rejecting_app (cart_page [(''Samsung galaxy s6'', ''360'')]) deleteButtons 0
     = Inr (Some (ascii ''This user already exist.''), cart_page [(''Samsung galaxy s6'', ''360'')])"
  "getCartItemCount (cart_page [(''Samsung galaxy s6'', ''360'')]) = Inr (Suc 0)"
proof -
  show "nth_click unresponsive_app (cart_page [(''Samsung galaxy s6'', ''360'')]) deleteButtons 0
     = Inr (None, cart_page [(''Samsung galaxy s6'', ''360'')])"
    by (simp add: nth_click_def locator_nth_def cart_page_simps shown_def unresponsive_app_def)
  show "nth_click rejecting_app (cart_page [(''Samsung galaxy s6'', ''360'')]) deleteButtons 0
     = Inr (Some (ascii ''This user already exist.''), cart_page [(''Samsung galaxy s6'', ''360'')])"
    by (simp add: nth_click_def locator_nth_def cart_page_simps shown_def rejecting_app_def)
  have w: "waitForSelector (cart_page [(''Samsung galaxy s6'', ''360'')]) page_wrapper = Inr ()"
    by (simp add: waitForSelector_def cart_page_simps shown_def)
  show "getCartItemCount (cart_page [(''Samsung galaxy s6'', ''360'')]) = Inr (Suc 0)"
    using getCartItemCount_on_cart_page [OF w]
    by (simp add: cart_page_simps shown_def ascii_def isWhiteSpace_def)
qed

text \<open>
  C1, as the claim states it, fails: with one product in the cart and a shop that does
  not react to the click, \<open>removeAllItems\<close> does not return.
\<close>

theorem removeAllItems_never_returns_counterexample:
  "removeAllItems unresponsive_app (cart_page [(''Samsung galaxy s6'', ''360'')]) = None"
  using one_line_cart_facts(1,3) by (rule removeAllItems_diverges)

text \<open>
  A cart of two products is emptied when the shop removes the clicked row; a shop that
  only answers with a dialog keeps the method in its loop.
\<close>

theorem removeAllItems_unbounded_witness:
  "(\<exists>q. removeAllItems deleting_app
            (cart_page [(''Samsung galaxy s6'', ''360''), (''Sony vaio i5'', ''790'')])
          = Some (Inr (), q) \<and> getCartItemCount q = Inr 0)
   \<and> removeAllItems rejecting_app (cart_page [(''Samsung galaxy s6'', ''360'')]) = None"
proof -
  let ?p = "cart_page [(''Samsung galaxy s6'', ''360''), (''Sony vaio i5'', ''790'')]"
  have shop: "\<forall>q. snd (deleting_app q deleteButtons 0) = remove_row 0 q"
    by (simp add: deleting_app_def)
  have rows: "length (?p deleteButtons) = length (?p cartItems)"
    "list_all el_visible (?p deleteButtons)"
    by (simp_all add: cart_page_simps shown_def)
  show ?thesis
    using removeAllItems_unbounded [of deleting_app ?p] shop rows
      removeAllItems_unbounded [of rejecting_app "cart_page [(''Samsung galaxy s6'', ''360'')]"]
      one_line_cart_facts(2,3)
    by blast
qed

end
